theory Spec2Isabelle
  imports Main
begin

section \<open>Descriptor data model\<close>

text \<open>
  The renderer of \<^verbatim>\<open>reverse.py\<close> reads protobuf descriptor messages and writes
  \<^verbatim>\<open>.proto\<close> text. Each descriptor message is a record (or, where it nests in
  itself, a datatype) holding the attributes the code reads; selector names carry a
  short prefix because several messages share attribute names. Integers are Python's
  unbounded ints, strings are character lists.
\<close>

record FieldOptions =
  packed :: bool

record FieldDescriptorProto =
  f_name :: string
  f_number :: int
  f_type :: int
  f_type_name :: string
  f_label :: int
  f_options :: FieldOptions

record EnumValueDescriptorProto =
  v_name :: string
  v_number :: int

record EnumOptions =
  allow_alias :: bool

record EnumDescriptorProto =
  e_name :: string
  e_value :: "EnumValueDescriptorProto list"
  e_options :: EnumOptions

record MessageOptions =
  map_entry :: bool

datatype DescriptorProto =
  DescriptorProto
    (m_name: string)
    (m_field: "FieldDescriptorProto list")
    (m_nested_type: "DescriptorProto list")
    (m_enum_type: "EnumDescriptorProto list")
    (m_options: MessageOptions)

record MethodDescriptorProto =
  r_name :: string
  r_input_type :: string
  r_output_type :: string
  r_client_streaming :: bool
  r_server_streaming :: bool

record ServiceDescriptorProto =
  s_name :: string
  s_method :: "MethodDescriptorProto list"

record FileDescriptorProto =
  fd_name :: string
  fd_package :: string
  fd_syntax :: string
  fd_dependency :: "string list"
  fd_message_type :: "DescriptorProto list"
  fd_enum_type :: "EnumDescriptorProto list"
  fd_service :: "ServiceDescriptorProto list"

text \<open>
  A loaded \<^verbatim>\<open>FileDescriptor\<close>: its name, the descriptors of its dependencies and
  its serialized payload. The payload is kept in parsed form; decoding it is the
  protobuf library's work and happens before anything is written. A finite tree of
  this type is the unfolding of an acyclic dependency graph: a file imported along
  two paths occurs as two equal subtrees.
\<close>

datatype FileDescriptor =
  FileDescriptor
    (d_name: string)
    (d_dependencies: "FileDescriptor list")
    (d_serialized_pb: FileDescriptorProto)

text \<open>The exceptions the code can raise, as values.\<close>

datatype error =
  NameError string
  | KeyError int
  | IndexError
  | TypeError
  | ValueError
  | OSError

section \<open>Constants\<close>

definition TYPE_DOUBLE :: int where "TYPE_DOUBLE = 1"
definition TYPE_FLOAT :: int where "TYPE_FLOAT = 2"
definition TYPE_INT64 :: int where "TYPE_INT64 = 3"
definition TYPE_UINT64 :: int where "TYPE_UINT64 = 4"
definition TYPE_INT32 :: int where "TYPE_INT32 = 5"
definition TYPE_FIXED64 :: int where "TYPE_FIXED64 = 6"
definition TYPE_FIXED32 :: int where "TYPE_FIXED32 = 7"
definition TYPE_BOOL :: int where "TYPE_BOOL = 8"
definition TYPE_STRING :: int where "TYPE_STRING = 9"
definition TYPE_GROUP :: int where "TYPE_GROUP = 10"
definition TYPE_MESSAGE :: int where "TYPE_MESSAGE = 11"
definition TYPE_BYTES :: int where "TYPE_BYTES = 12"
definition TYPE_UINT32 :: int where "TYPE_UINT32 = 13"
definition TYPE_ENUM :: int where "TYPE_ENUM = 14"
definition TYPE_SFIXED32 :: int where "TYPE_SFIXED32 = 15"
definition TYPE_SFIXED64 :: int where "TYPE_SFIXED64 = 16"
definition TYPE_SINT32 :: int where "TYPE_SINT32 = 17"
definition TYPE_SINT64 :: int where "TYPE_SINT64 = 18"

text \<open>The dictionary \<^verbatim>\<open>TYPE_LABELS\<close>, entry by entry as the source spells it.\<close>

definition TYPE_LABELS :: "(int \<times> string) list" where
  "TYPE_LABELS =
    [(TYPE_DOUBLE, ''double''),
     (TYPE_FLOAT, ''float''),
     (TYPE_INT64, ''int64''),
     (TYPE_UINT64, ''uint64''),
     (TYPE_INT32, ''int32''),
     (TYPE_FIXED64, ''fixed64''),
     (TYPE_FIXED32, ''fixed32''),
     (TYPE_BOOL, ''bool''),
     (TYPE_STRING, ''string''),
     (TYPE_BYTES, ''byes''),
     (TYPE_UINT32, ''uint32''),
     (TYPE_SFIXED32, ''sfixed32''),
     (TYPE_SFIXED64, ''sfixed64''),
     (TYPE_SINT32, ''sint32''),
     (TYPE_SINT64, ''sint64'')]"

text \<open>\<^verbatim>\<open>FieldDescriptorProto.LABEL_REPEATED\<close> of the protobuf schema.\<close>

definition LABEL_REPEATED :: int where "LABEL_REPEATED = 3"

section \<open>Strings and paths\<close>

text \<open>Decimal rendering of an integer, as an f-string formats it.\<close>

fun str_nat :: "nat \<Rightarrow> string" where
  "str_nat n =
    (if n < 10 then [''0123456789'' ! n]
     else str_nat (n div 10) @ [''0123456789'' ! (n mod 10)])"

declare str_nat.simps [simp del]

definition str_int :: "int \<Rightarrow> string" where
  "str_int i = (if i < 0 then ''-'' @ str_nat (nat (- i)) else str_nat (nat i))"

text \<open>
  \<^verbatim>\<open>s.split(sep=c)\<close> for a one-character separator: the pieces between the
  separators, never an empty list.
\<close>

fun str_split :: "char \<Rightarrow> string \<Rightarrow> string list" where
  "str_split c [] = [[]]"
| "str_split c (x # xs) =
    (if x = c then [] # str_split c xs
     else (case str_split c xs of
             [] \<Rightarrow> [[x]]
           | y # ys \<Rightarrow> (x # y) # ys))"

text \<open>\<^verbatim>\<open>s.split(sep=".")[-1]\<close>.\<close>

definition last_segment :: "string \<Rightarrow> string" where
  "last_segment s = last (str_split CHR ''.'' s)"

text \<open>\<^verbatim>\<open>s.startswith(p)\<close>.\<close>

definition startswith :: "string \<Rightarrow> string \<Rightarrow> bool" where
  "startswith s p = (take (length p) s = p)"

text \<open>
  \<^verbatim>\<open>pathlib.Path\<close>, used lexically by the code: a relative POSIX path is the list
  of its components. The constructor drops empty and \<^verbatim>\<open>.\<close> components; every
  path the code builds starts with \<^verbatim>\<open>protobuf/\<close>, so no path is absolute.
  \<^verbatim>\<open>Path('.')\<close> is the empty list and is its own parent.
\<close>

type_synonym path = "string list"

definition Path :: "string \<Rightarrow> path" where
  "Path s = filter (\<lambda>c. c \<noteq> [] \<and> c \<noteq> ''.'') (str_split CHR ''/'' s)"

definition parent :: "path \<Rightarrow> path" where
  "parent p = butlast p"

definition is_relative_to :: "path \<Rightarrow> path \<Rightarrow> bool" where
  "is_relative_to p other = (take (length other) p = other)"

definition relative_to :: "path \<Rightarrow> path \<Rightarrow> error + path" where
  "relative_to p other =
    (if is_relative_to p other then Inr (drop (length other) p) else Inl ValueError)"

fun join_path :: "path \<Rightarrow> string" where
  "join_path [] = []"
| "join_path [c] = c"
| "join_path (c # cs) = c @ ''/'' @ join_path cs"

definition path_str :: "path \<Rightarrow> string" where
  "path_str p = (if p = [] then ''.'' else join_path p)"

section \<open>Rendering\<close>

text \<open>
  Every writer takes the text written to the stream so far and returns the text after
  its writes, with the exception that stopped it, if any. What was written before an
  exception stays written.
\<close>

type_synonym writer = "string \<times> error option"

subsection \<open>Fields\<close>

definition extract_field_type_str :: "FieldDescriptorProto \<Rightarrow> error + string" where
  "extract_field_type_str fld =
    (if f_type fld = TYPE_ENUM \<or> f_type fld = TYPE_MESSAGE then
       Inr (last_segment (f_type_name fld))
     else if f_type fld = TYPE_GROUP then Inl (NameError ''GROUP'')
     else (case map_of TYPE_LABELS (f_type fld) of
             None \<Rightarrow> Inl (KeyError (f_type fld))
           | Some type_str \<Rightarrow> Inr type_str))"

text \<open>
  The loop \<^verbatim>\<open>for o in field.options\<close> runs over the protobuf message
  \<^verbatim>\<open>field.options\<close>, not over the dictionary \<^verbatim>\<open>options\<close> built just before.
  A protobuf message is neither iterable nor subscriptable, so asking for its
  iterator raises \<^verbatim>\<open>TypeError\<close> before the loop body runs.
\<close>

definition iter_FieldOptions :: "FieldOptions \<Rightarrow> error + (string \<times> string) list" where
  "iter_FieldOptions opts = Inl TypeError"

fun write_options :: "string \<Rightarrow> (string \<times> string) list \<Rightarrow> string \<Rightarrow> string" where
  "write_options proto [] sep = proto"
| "write_options proto ((o_key, v) # rest) sep =
    write_options (proto @ o_key @ '' = '' @ v @ sep) rest '',''"

definition generate_field ::
  "string \<Rightarrow> FieldDescriptorProto \<Rightarrow> (string \<rightharpoonup> string) \<Rightarrow> string \<Rightarrow> writer" where
  "generate_field proto fld map_entries level =
    (case extract_field_type_str fld of
       Inl e \<Rightarrow> (proto, Some e)
     | Inr t \<Rightarrow>
        (let (type_str, is_map) =
               (case map_entries t of Some shortcut \<Rightarrow> (shortcut, True) | None \<Rightarrow> (t, False));
             options = (if packed (f_options fld) then [(''packed'', ''true'')] else []);
             repeat = (if f_label fld = LABEL_REPEATED \<and> is_map = False
                       then ''repeated '' else []);
             p1 = proto @ level @ repeat @ type_str @ '' '' @ f_name fld @ '' = ''
                    @ str_int (f_number fld)
         in if length options > 0 then
              (case iter_FieldOptions (f_options fld) of
                 Inl e \<Rightarrow> (p1 @ ''['', Some e)
               | Inr items \<Rightarrow> (write_options (p1 @ ''['') items [] @ '']'' @ '';\<newline>'', None))
            else (p1 @ '';\<newline>'', None)))"

fun generate_fields ::
  "string \<Rightarrow> FieldDescriptorProto list \<Rightarrow> (string \<rightharpoonup> string) \<Rightarrow> string \<Rightarrow> writer" where
  "generate_fields proto [] map_entries level = (proto, None)"
| "generate_fields proto (f # fs) map_entries level =
    (case generate_field proto f map_entries level of
       (p, Some e) \<Rightarrow> (p, Some e)
     | (p, None) \<Rightarrow> generate_fields p fs map_entries level)"

subsection \<open>Enums\<close>

fun generate_enum_values :: "string \<Rightarrow> EnumValueDescriptorProto list \<Rightarrow> string \<Rightarrow> string" where
  "generate_enum_values proto [] level = proto"
| "generate_enum_values proto (v # vs) level =
    generate_enum_values
      (proto @ level @ ''  '' @ v_name v @ '' = '' @ str_int (v_number v) @ '';\<newline>'')
      vs level"

definition generate_enum :: "string \<Rightarrow> EnumDescriptorProto \<Rightarrow> string \<Rightarrow> string" where
  "generate_enum proto enum level =
    (let p1 = proto @ level @ ''enum '' @ e_name enum @ '' {\<newline>'';
         p2 = (if allow_alias (e_options enum)
               then p1 @ level @ '' option allow_alias = true;\<newline>'' else p1);
         p3 = generate_enum_values p2 (e_value enum) level
     in p3 @ level @ ''}\<newline>'')"

fun generate_enums :: "string \<Rightarrow> EnumDescriptorProto list \<Rightarrow> string \<Rightarrow> string" where
  "generate_enums proto [] level = proto"
| "generate_enums proto (e # es) level = generate_enums (generate_enum proto e level) es level"

subsection \<open>Messages\<close>

text \<open>
  \<^verbatim>\<open>m.field[i]\<close> on a repeated field raises \<^verbatim>\<open>IndexError\<close> out of range.
\<close>

definition field_at :: "FieldDescriptorProto list \<Rightarrow> nat \<Rightarrow> error + FieldDescriptorProto" where
  "field_at fs i = (if i < length fs then Inr (fs ! i) else Inl IndexError)"

definition extract_map_shortcut :: "DescriptorProto \<Rightarrow> error + string" where
  "extract_map_shortcut m =
    (case field_at (m_field m) 0 of
       Inl e \<Rightarrow> Inl e
     | Inr f0 \<Rightarrow>
        (case extract_field_type_str f0 of
           Inl e \<Rightarrow> Inl e
         | Inr k \<Rightarrow>
            (case field_at (m_field m) 1 of
               Inl e \<Rightarrow> Inl e
             | Inr f1 \<Rightarrow>
                (case extract_field_type_str f1 of
                   Inl e \<Rightarrow> Inl e
                 | Inr v \<Rightarrow> Inr (''map<'' @ k @ '','' @ v @ ''>'')))))"

text \<open>
  \<^verbatim>\<open>__generate_message\<close> and its loop over \<^verbatim>\<open>msg.nested_type\<close>, which threads
  the stream and the dictionary \<^verbatim>\<open>map_entries\<close>.
\<close>

fun generate_message :: "string \<Rightarrow> DescriptorProto \<Rightarrow> string \<Rightarrow> writer"
  and generate_nested ::
    "string \<Rightarrow> DescriptorProto list \<Rightarrow> (string \<rightharpoonup> string) \<Rightarrow> string
      \<Rightarrow> (string \<times> (string \<rightharpoonup> string)) \<times> error option"
where
  "generate_message proto (DescriptorProto name flds nested enums opts) level =
    (case generate_nested
            (proto @ level @ ''message '' @ name @ ''\<newline>'' @ level @ ''{\<newline>'')
            nested Map.empty level of
       ((p, map_entries), Some e) \<Rightarrow> (p, Some e)
     | ((p, map_entries), None) \<Rightarrow>
        (case generate_fields (generate_enums p enums (level @ ''  '')) flds map_entries
                (level @ ''  '') of
           (p', Some e) \<Rightarrow> (p', Some e)
         | (p', None) \<Rightarrow> (p' @ level @ ''}\<newline>'', None)))"
| "generate_nested proto [] map_entries level = ((proto, map_entries), None)"
| "generate_nested proto (m # ms) map_entries level =
    (if map_entry (m_options m) then
       (case extract_map_shortcut m of
          Inl e \<Rightarrow> ((proto, map_entries), Some e)
        | Inr shortcut \<Rightarrow> generate_nested proto ms (map_entries(m_name m \<mapsto> shortcut)) level)
     else
       (case generate_message proto m (level @ ''  '') of
          (p, Some e) \<Rightarrow> ((p, map_entries), Some e)
        | (p, None) \<Rightarrow> generate_nested p ms map_entries level))"

fun generate_messages :: "string \<Rightarrow> DescriptorProto list \<Rightarrow> writer" where
  "generate_messages proto [] = (proto, None)"
| "generate_messages proto (m # ms) =
    (case generate_message proto m [] of
       (p, Some e) \<Rightarrow> (p, Some e)
     | (p, None) \<Rightarrow> generate_messages p ms)"

subsection \<open>Imports\<close>

text \<open>
  The loop of \<^verbatim>\<open>__generate_import\<close>: while the target is not below
  \<^verbatim>\<open>current\<close>, add one \<^verbatim>\<open>../\<close> and step to the parent. It returns the
  prefix and the directory it stopped at.
\<close>

function walk_up :: "path \<Rightarrow> string \<Rightarrow> path \<Rightarrow> string \<times> path" where
  "walk_up target_file up current =
    (if \<not> is_relative_to target_file current
     then walk_up target_file (up @ ''../'') (parent current)
     else (up, current))"
  by pat_completeness auto
termination
proof (relation "measure (\<lambda>(target_file, up, current). length current)")
  show "wf (measure (\<lambda>(target_file, up, current). length current))"
    by simp
next
  fix target_file :: path and up :: string and current :: path
  assume "\<not> is_relative_to target_file current"
  then have "current \<noteq> []"
    by (auto simp: is_relative_to_def)
  then show "((target_file, up @ ''../'', parent current), (target_file, up, current))
      \<in> measure (\<lambda>(target_file, up, current). length current)"
    by (simp add: parent_def)
qed

declare walk_up.simps [simp del]

definition generate_import :: "string \<Rightarrow> string \<Rightarrow> path \<Rightarrow> writer" where
  "generate_import proto dep current_dir =
    (if startswith dep ''google'' then (proto, None)
     else
       (let target_file = Path (''protobuf/'' @ dep);
            (up, current) = walk_up target_file [] current_dir
        in case relative_to target_file current of
             Inl e \<Rightarrow> (proto, Some e)
           | Inr rel \<Rightarrow> (proto @ ''import \"'' @ up @ path_str rel @ ''\";\<newline>'', None)))"

fun generate_imports :: "string \<Rightarrow> string list \<Rightarrow> path \<Rightarrow> writer" where
  "generate_imports proto [] current_dir = (proto, None)"
| "generate_imports proto (d # ds) current_dir =
    (case generate_import proto d current_dir of
       (p, Some e) \<Rightarrow> (p, Some e)
     | (p, None) \<Rightarrow> generate_imports p ds current_dir)"

subsection \<open>Services\<close>

definition generate_rpc_method :: "string \<Rightarrow> string \<Rightarrow> MethodDescriptorProto \<Rightarrow> string" where
  "generate_rpc_method proto level m =
    (let in_mode = (if r_client_streaming m then ''stream '' else []);
         in_type = last_segment (r_input_type m);
         ret_mode = (if r_server_streaming m then ''stream '' else []);
         ret_type = last_segment (r_output_type m)
     in proto @ level @ ''rpc '' @ r_name m @ '' ('' @ in_mode @ in_type @ '') returns (''
          @ ret_mode @ ret_type @ '');\<newline>'')"

fun generate_rpc_methods :: "string \<Rightarrow> MethodDescriptorProto list \<Rightarrow> string" where
  "generate_rpc_methods proto [] = proto"
| "generate_rpc_methods proto (m # ms) =
    generate_rpc_methods (generate_rpc_method proto ''  '' m) ms"

definition generate_service :: "string \<Rightarrow> ServiceDescriptorProto \<Rightarrow> string" where
  "generate_service proto s =
    generate_rpc_methods (proto @ ''service '' @ s_name s @ '' {\<newline>'') (s_method s)
      @ ''}\<newline>''"

fun generate_services :: "string \<Rightarrow> ServiceDescriptorProto list \<Rightarrow> string" where
  "generate_services proto [] = proto"
| "generate_services proto (s # ss) = generate_services (generate_service proto s) ss"

subsection \<open>Files\<close>

text \<open>
  The output tree: the regular files with their text, the directories, and the names
  of the files rendered so far in order. The last is a history of the calls of
  \<^verbatim>\<open>__generate_file\<close> that opened their file, kept to state in which order files
  are emitted; the code itself never reads it. A path is the list of components that
  \<^verbatim>\<open>pathlib\<close> keeps, a \<^verbatim>\<open>..\<close> component as it is written: the tree has no symbolic
  links, and a file is keyed by the path given to \<^verbatim>\<open>open\<close>. Every failure of the operating system is the one value
  \<^verbatim>\<open>OSError\<close> (\<^verbatim>\<open>FileExistsError\<close>, \<^verbatim>\<open>NotADirectoryError\<close> and
  \<^verbatim>\<open>IsADirectoryError\<close> are its subclasses).
\<close>

record world =
  files :: "path \<rightharpoonup> string"
  dirs :: "path set"
  emitted :: "string list"

text \<open>\<^verbatim>\<open>p.exists()\<close>; the current directory always exists.\<close>

definition path_exists :: "world \<Rightarrow> path \<Rightarrow> bool" where
  "path_exists w p = (p = [] \<or> p \<in> dirs w \<or> files w p \<noteq> None)"

text \<open>
  \<^verbatim>\<open>p.mkdir(exist_ok=True, parents=True)\<close>: every missing directory on the way is
  created; a regular file at \<open>p\<close> or above it makes the call raise, and then nothing
  has been created.
\<close>

definition mkdir_parents :: "world \<Rightarrow> path \<Rightarrow> error + world" where
  "mkdir_parents w p =
    (if list_ex (\<lambda>n. files w (take n p) \<noteq> None) [1..<Suc (length p)] then Inl OSError
     else Inr (w\<lparr>dirs := dirs w \<union> set (map (\<lambda>n. take n p) [1..<Suc (length p)])\<rparr>))"

text \<open>
  \<^verbatim>\<open>open(p, 'w')\<close>: the directory of \<open>p\<close> must be a directory and \<open>p\<close> itself must
  not be one; the file is created, or truncated if it exists.
\<close>

definition open_write :: "world \<Rightarrow> path \<Rightarrow> error + world" where
  "open_write w p =
    (if p = [] \<or> p \<in> dirs w \<or> (parent p \<noteq> [] \<and> parent p \<notin> dirs w) then Inl OSError
     else Inr (w\<lparr>files := (files w)(p \<mapsto> [])\<rparr>))"

text \<open>
  The body of the \<^verbatim>\<open>with open(target_path, 'w')\<close> block, started on the empty
  stream that opening for writing gives.
\<close>

definition render_file :: "FileDescriptorProto \<Rightarrow> path \<Rightarrow> writer" where
  "render_file file current_dir =
    (let p1 = ''syntax = \"'' @ fd_syntax file @ ''\";\<newline>'';
         p2 = (if length (fd_package file) > 0
               then p1 @ ''package '' @ fd_package file @ '';\<newline>'' else p1)
     in case generate_imports p2 (fd_dependency file) current_dir of
          (p3, Some e) \<Rightarrow> (p3, Some e)
        | (p3, None) \<Rightarrow>
            generate_messages
              (generate_enums (generate_services p3 (fd_service file)) (fd_enum_type file) [])
              (fd_message_type file))"

text \<open>
  \<^verbatim>\<open>__generate_file\<close> (its name is an Isabelle keyword, hence the suffix),
  applied to the parsed payload. The directory is created if it does not exist, then
  the file is opened before the first write; an exception of either step leaves the
  function before anything is rendered. The \<^verbatim>\<open>with\<close> statement closes the file on
  every exit, so whatever was written when an exception leaves the block is the
  file's content. The diagnostic \<^verbatim>\<open>print\<close> of the parsed descriptor is left out.
\<close>

definition generate_file_pb :: "FileDescriptorProto \<Rightarrow> world \<Rightarrow> world \<times> error option" where
  "generate_file_pb file w =
    (let target_path = Path (''protobuf/'' @ fd_name file) in
     case (if \<not> path_exists w (parent target_path)
           then mkdir_parents w (parent target_path) else Inr w) of
       Inl e \<Rightarrow> (w, Some e)
     | Inr w1 \<Rightarrow>
        (case open_write w1 target_path of
           Inl e \<Rightarrow> (w1, Some e)
         | Inr w2 \<Rightarrow>
            (let (content, err) = render_file file (parent target_path)
             in (w2\<lparr>files := (files w2)(target_path \<mapsto> content),
                     emitted := emitted w2 @ [fd_name file]\<rparr>, err))))"

section \<open>Descriptor graph walk\<close>



section \<open>Example descriptors\<close>


definition group_field :: FieldDescriptorProto where
  "group_field =
    \<lparr>f_name = ''g'', f_number = 1, f_type = 10, f_type_name = [], f_label = 1,
     f_options = \<lparr>packed = False\<rparr>\<rparr>"

definition group_file :: FileDescriptorProto where
  "group_file =
    \<lparr>fd_name = ''x.proto'', fd_package = [], fd_syntax = ''proto3'', fd_dependency = [],
     fd_message_type = [DescriptorProto ''M'' [group_field] [] [] \<lparr>map_entry = False\<rparr>],
     fd_enum_type = [], fd_service = []\<rparr>"




section \<open>Dependency graphs\<close>

text \<open>
  The descriptors reachable from a descriptor, itself included. A graph is well named
  when a name determines the descriptor (the descriptor pool holds one descriptor per
  file name, so two occurrences of a name are the same file with the same
  dependencies) and each payload carries its descriptor's name.
\<close>

fun nodes :: "FileDescriptor \<Rightarrow> FileDescriptor set" where
  "nodes (FileDescriptor name deps pb) =
    insert (FileDescriptor name deps pb) (\<Union>d \<in> set deps. nodes d)"



subsection \<open>An example graph\<close>






section \<open>Reaching a field of group kind\<close>



section \<open>Properties\<close>

lemmas type_codes =
  TYPE_DOUBLE_def TYPE_FLOAT_def TYPE_INT64_def TYPE_UINT64_def TYPE_INT32_def
  TYPE_FIXED64_def TYPE_FIXED32_def TYPE_BOOL_def TYPE_STRING_def TYPE_GROUP_def
  TYPE_MESSAGE_def TYPE_BYTES_def TYPE_UINT32_def TYPE_ENUM_def TYPE_SFIXED32_def
  TYPE_SFIXED64_def TYPE_SINT32_def TYPE_SINT64_def

subsection \<open>Splitting strings\<close>

lemma str_split_not_Nil: "str_split c s \<noteq> []"
  by (induction s) (auto split: list.splits)

lemma str_split_no_sep: "c \<notin> set s \<Longrightarrow> str_split c s = [s]"
  by (induction s) auto

lemma str_split_sep_two: "c \<in> set s \<Longrightarrow> tl (str_split c s) \<noteq> []"
proof (induction s)
  case Nil
  then show ?case by simp
next
  case (Cons x xs)
  show ?case
  proof (cases "x = c")
    case True
    then show ?thesis by (simp add: str_split_not_Nil)
  next
    case False
    with Cons.prems have "c \<in> set xs" by simp
    with Cons.IH have "tl (str_split c xs) \<noteq> []" by simp
    with False show ?thesis by (auto split: list.splits)
  qed
qed

lemma last_str_split_append:
  "c \<notin> set q \<Longrightarrow> last (str_split c (p @ c # q)) = q"
proof (induction p)
  case Nil
  then show ?case by (simp add: str_split_no_sep)
next
  case (Cons x p)
  have "tl (str_split c (p @ c # q)) \<noteq> []"
    by (rule str_split_sep_two) simp
  then obtain y z zs where *: "str_split c (p @ c # q) = y # z # zs"
    by (cases "str_split c (p @ c # q)") (auto simp: neq_Nil_conv)
  with Cons show ?case by auto
qed

lemma last_segment_no_dot: "CHR ''.'' \<notin> set s \<Longrightarrow> last_segment s = s"
  by (simp add: last_segment_def str_split_no_sep)

lemma last_segment_qualified:
  "CHR ''.'' \<notin> set q \<Longrightarrow> last_segment (p @ ''.'' @ q) = q"
  by (simp add: last_segment_def last_str_split_append)

lemma last_segment_suffix:
  "\<exists>pre. s = pre @ last_segment s \<and> (pre = [] \<or> last pre = CHR ''.'')"
proof (cases "CHR ''.'' \<in> set s")
  case False
  then show ?thesis by (simp add: last_segment_no_dot)
next
  case True
  then obtain p q where s: "s = p @ CHR ''.'' # q" and q: "CHR ''.'' \<notin> set q"
    by (auto dest: split_list_last)
  have "last_segment s = q"
    using q by (simp add: s last_segment_def last_str_split_append)
  then have "s = (p @ ''.'') @ last_segment s \<and> last (p @ ''.'') = CHR ''.''"
    by (simp add: s)
  then show ?thesis by blast
qed

lemma last_segment_dot_free: "CHR ''.'' \<notin> set (last_segment s)"
proof (cases "CHR ''.'' \<in> set s")
  case False
  then show ?thesis by (simp add: last_segment_no_dot)
next
  case True
  then obtain p q where s: "s = p @ CHR ''.'' # q" and q: "CHR ''.'' \<notin> set q"
    by (auto dest: split_list_last)
  then show ?thesis
    by (simp add: last_segment_def last_str_split_append)
qed

subsection \<open>RPC methods\<close>

text \<open>
  Claim C7. The line written for a method is
  \<^verbatim>\<open>rpc NAME (IN) returns (OUT);\<close> where \<^verbatim>\<open>stream \<close> stands before the request
  type exactly when \<open>client_streaming\<close> is set and before the response type exactly
  when \<open>server_streaming\<close> is set, each flag on its own. A type is shown by the last
  dot-separated segment of its name: the segment contains no dot, and what precedes
  it in the name is empty or ends with a dot.
\<close>

theorem rpc_method_streaming:
  "generate_rpc_method proto level m =
     proto @ level @ ''rpc '' @ r_name m
       @ '' ('' @ (if r_client_streaming m then ''stream '' else []) @ last_segment (r_input_type m)
       @ '') returns ('' @ (if r_server_streaming m then ''stream '' else [])
       @ last_segment (r_output_type m) @ '');\<newline>''
   \<and> CHR ''.'' \<notin> set (last_segment s)
   \<and> (\<exists>pre. s = pre @ last_segment s \<and> (pre = [] \<or> last pre = CHR ''.''))"
  using last_segment_suffix [of s] last_segment_dot_free [of s]
  by (simp add: generate_rpc_method_def)

text \<open>The four combinations of the flags on a method \<open>M\<close> from \<open>.pkg.In\<close> to \<open>.pkg.Out\<close>.\<close>

theorem rpc_method_streaming_witness:
  "generate_rpc_method [] ''  ''
     \<lparr>r_name = ''M'', r_input_type = ''.pkg.In'', r_output_type = ''.pkg.Out'',
      r_client_streaming = True, r_server_streaming = True\<rparr>
     = ''  rpc M (stream In) returns (stream Out);\<newline>''
   \<and> generate_rpc_method [] ''  ''
     \<lparr>r_name = ''M'', r_input_type = ''.pkg.In'', r_output_type = ''.pkg.Out'',
      r_client_streaming = False, r_server_streaming = False\<rparr>
     = ''  rpc M (In) returns (Out);\<newline>''
   \<and> generate_rpc_method [] ''  ''
     \<lparr>r_name = ''M'', r_input_type = ''.pkg.In'', r_output_type = ''.pkg.Out'',
      r_client_streaming = True, r_server_streaming = False\<rparr>
     = ''  rpc M (stream In) returns (Out);\<newline>''
   \<and> generate_rpc_method [] ''  ''
     \<lparr>r_name = ''M'', r_input_type = ''.pkg.In'', r_output_type = ''.pkg.Out'',
      r_client_streaming = False, r_server_streaming = True\<rparr>
     = ''  rpc M (In) returns (stream Out);\<newline>''"
proof -
  have seg: "last_segment ''.pkg.In'' = ''In''" "last_segment ''.pkg.Out'' = ''Out''"
    by (simp_all add: last_segment_def)
  show ?thesis
    using rpc_method_streaming [of "[]" "''  ''"
        "\<lparr>r_name = ''M'', r_input_type = ''.pkg.In'', r_output_type = ''.pkg.Out'',
          r_client_streaming = True, r_server_streaming = True\<rparr>" "[]"]
      rpc_method_streaming [of "[]" "''  ''"
        "\<lparr>r_name = ''M'', r_input_type = ''.pkg.In'', r_output_type = ''.pkg.Out'',
          r_client_streaming = False, r_server_streaming = False\<rparr>" "[]"]
      rpc_method_streaming [of "[]" "''  ''"
        "\<lparr>r_name = ''M'', r_input_type = ''.pkg.In'', r_output_type = ''.pkg.Out'',
          r_client_streaming = True, r_server_streaming = False\<rparr>" "[]"]
      rpc_method_streaming [of "[]" "''  ''"
        "\<lparr>r_name = ''M'', r_input_type = ''.pkg.In'', r_output_type = ''.pkg.Out'',
          r_client_streaming = False, r_server_streaming = True\<rparr>" "[]"]
    by (simp add: seg)
qed

subsection \<open>Field types\<close>

lemma extract_field_type_str_scalar:
  "extract_field_type_str (fld\<lparr>f_type := TYPE_DOUBLE\<rparr>) = Inr ''double''"
  "extract_field_type_str (fld\<lparr>f_type := TYPE_FLOAT\<rparr>) = Inr ''float''"
  "extract_field_type_str (fld\<lparr>f_type := TYPE_INT64\<rparr>) = Inr ''int64''"
  "extract_field_type_str (fld\<lparr>f_type := TYPE_UINT64\<rparr>) = Inr ''uint64''"
  "extract_field_type_str (fld\<lparr>f_type := TYPE_INT32\<rparr>) = Inr ''int32''"
  "extract_field_type_str (fld\<lparr>f_type := TYPE_FIXED64\<rparr>) = Inr ''fixed64''"
  "extract_field_type_str (fld\<lparr>f_type := TYPE_FIXED32\<rparr>) = Inr ''fixed32''"
  "extract_field_type_str (fld\<lparr>f_type := TYPE_BOOL\<rparr>) = Inr ''bool''"
  "extract_field_type_str (fld\<lparr>f_type := TYPE_STRING\<rparr>) = Inr ''string''"
  "extract_field_type_str (fld\<lparr>f_type := TYPE_UINT32\<rparr>) = Inr ''uint32''"
  "extract_field_type_str (fld\<lparr>f_type := TYPE_SFIXED32\<rparr>) = Inr ''sfixed32''"
  "extract_field_type_str (fld\<lparr>f_type := TYPE_SFIXED64\<rparr>) = Inr ''sfixed64''"
  "extract_field_type_str (fld\<lparr>f_type := TYPE_SINT32\<rparr>) = Inr ''sint32''"
  "extract_field_type_str (fld\<lparr>f_type := TYPE_SINT64\<rparr>) = Inr ''sint64''"
  by (simp_all add: extract_field_type_str_def TYPE_LABELS_def type_codes)

lemma extract_field_type_str_group:
  "extract_field_type_str (fld\<lparr>f_type := TYPE_GROUP\<rparr>) = Inl (NameError ''GROUP'')"
  by (simp add: extract_field_type_str_def type_codes)

lemma extract_field_type_str_unknown:
  "t < 1 \<or> 18 < t \<Longrightarrow> extract_field_type_str (fld\<lparr>f_type := t\<rparr>) = Inl (KeyError t)"
  by (auto simp: extract_field_type_str_def TYPE_LABELS_def type_codes)

lemma extract_field_type_str_error:
  "extract_field_type_str fld = Inl e \<Longrightarrow> e = NameError ''GROUP'' \<or> e = KeyError (f_type fld)"
  by (auto simp: extract_field_type_str_def split: if_splits option.splits)

text \<open>
  Claim C1 (the code departs from it). A field of type code 12
  (\<^verbatim>\<open>TYPE_BYTES\<close>) is rendered with the table's entry \<^verbatim>\<open>byes\<close>, which is not
  the keyword \<^verbatim>\<open>bytes\<close>: the type string is \<^verbatim>\<open>byes\<close> for every such field, and
  the whole line of an optional field \<open>b = 10\<close> reads \<^verbatim>\<open>byes b = 10;\<close>.
\<close>

theorem bytes_field_rendered_byes:
  "extract_field_type_str (fld\<lparr>f_type := TYPE_BYTES\<rparr>) = Inr ''byes''
   \<and> ''byes'' \<noteq> ''bytes''
   \<and> generate_field []
        \<lparr>f_name = ''b'', f_number = 10, f_type = 12, f_type_name = [], f_label = 1,
         f_options = \<lparr>packed = False\<rparr>\<rparr> Map.empty [] = (''byes b = 10;\<newline>'', None)"
  by (simp add: generate_field_def extract_field_type_str_def TYPE_LABELS_def type_codes
      LABEL_REPEATED_def str_int_def str_nat.simps)

subsection \<open>Field options\<close>

lemma generate_field_no_options:
  "extract_field_type_str fld = Inr t \<Longrightarrow> map_entries t = None \<Longrightarrow> \<not> packed (f_options fld) \<Longrightarrow>
   generate_field proto fld map_entries level =
     (proto @ level @ (if f_label fld = LABEL_REPEATED then ''repeated '' else []) @ t @ '' ''
        @ f_name fld @ '' = '' @ str_int (f_number fld) @ '';\<newline>'', None)"
  by (simp add: generate_field_def)

text \<open>
  Claim C2 (the code departs from it). For a field whose \<open>packed\<close> option is set the
  code writes the line up to and including the opening bracket and then stops with
  \<^verbatim>\<open>TypeError\<close>: neither \<^verbatim>\<open>packed = true]\<close> nor the semicolon is written. Shown
  for every \<open>int32\<close> field with the option set, whatever its name, number and label.
\<close>

theorem packed_field_raises:
  "generate_field proto (fld\<lparr>f_type := TYPE_INT32, f_options := \<lparr>packed = True\<rparr>\<rparr>) Map.empty level =
     (proto @ level @ (if f_label fld = LABEL_REPEATED then ''repeated '' else []) @ ''int32 ''
        @ f_name fld @ '' = '' @ str_int (f_number fld) @ ''['', Some TypeError)"
  by (simp add: generate_field_def extract_field_type_str_def TYPE_LABELS_def type_codes
      iter_FieldOptions_def)

subsection \<open>Map shorthand\<close>

lemma extract_map_shortcut_two:
  assumes "2 \<le> length (m_field m)"
  shows "extract_map_shortcut m =
    (case extract_field_type_str (m_field m ! 0) of
       Inl e \<Rightarrow> Inl e
     | Inr k \<Rightarrow>
        (case extract_field_type_str (m_field m ! 1) of
           Inl e \<Rightarrow> Inl e
         | Inr v \<Rightarrow> Inr (''map<'' @ k @ '','' @ v @ ''>'')))"
proof -
  from assms have "field_at (m_field m) 0 = Inr (m_field m ! 0)"
    and "field_at (m_field m) 1 = Inr (m_field m ! 1)"
    by (auto simp: field_at_def)
  then show ?thesis
    unfolding extract_map_shortcut_def by (simp only: sum.case)
qed

lemma extract_map_shortcut_take:
  "take 2 (m_field m') = take 2 (m_field m) \<Longrightarrow> extract_map_shortcut m' = extract_map_shortcut m"
proof -
  assume t: "take 2 (m_field m') = take 2 (m_field m)"
  have fa: "field_at fs i = field_at (take 2 fs) i" if "i < 2" for fs i
    using that by (auto simp: field_at_def)
  have "field_at (m_field m') 0 = field_at (m_field m) 0"
    "field_at (m_field m') 1 = field_at (m_field m) 1"
    using fa [of 0 "m_field m'"] fa [of 0 "m_field m"] fa [of 1 "m_field m'"] fa [of 1 "m_field m"] t
    by simp_all
  then show ?thesis
    unfolding extract_map_shortcut_def by (simp only:)
qed

text \<open>
  Claim C10. For a map-entry type with at least two fields the two index accesses
  succeed: the shorthand is never \<^verbatim>\<open>IndexError\<close>, it is \<^verbatim>\<open>map<K,V>\<close> with the
  type strings of field 0 and field 1 whenever both have one (an error of the key's
  type comes first, then one of the value's), and it is the same for any message that
  has the same first two fields.
\<close>

theorem map_shortcut_first_two:
  assumes "2 \<le> length (m_field m)"
  shows "extract_map_shortcut m \<noteq> Inl IndexError
    \<and> extract_map_shortcut m =
        (case extract_field_type_str (m_field m ! 0) of
           Inl e \<Rightarrow> Inl e
         | Inr k \<Rightarrow>
            (case extract_field_type_str (m_field m ! 1) of
               Inl e \<Rightarrow> Inl e
             | Inr v \<Rightarrow> Inr (''map<'' @ k @ '','' @ v @ ''>'')))
    \<and> extract_map_shortcut (DescriptorProto n (take 2 (m_field m)) ns es opts) = extract_map_shortcut m"
proof -
  have "extract_map_shortcut m \<noteq> Inl IndexError"
    using extract_field_type_str_error [of "m_field m ! 0" IndexError]
      extract_field_type_str_error [of "m_field m ! 1" IndexError]
    by (auto simp: extract_map_shortcut_two [OF assms] split: sum.splits)
  moreover have "extract_map_shortcut (DescriptorProto n (take 2 (m_field m)) ns es opts)
      = extract_map_shortcut m"
    by (rule extract_map_shortcut_take) simp
  ultimately show ?thesis
    using extract_map_shortcut_two [OF assms] by simp
qed

text \<open>A map entry from \<open>string\<close> to \<open>int32\<close>, with a third field that is never read.\<close>

theorem map_shortcut_first_two_witness:
  "2 \<le> length (m_field (DescriptorProto ''CountsEntry''
       [\<lparr>f_name = ''key'', f_number = 1, f_type = 9, f_type_name = [], f_label = 1,
          f_options = \<lparr>packed = False\<rparr>\<rparr>,
        \<lparr>f_name = ''value'', f_number = 2, f_type = 5, f_type_name = [], f_label = 1,
          f_options = \<lparr>packed = False\<rparr>\<rparr>,
        \<lparr>f_name = ''extra'', f_number = 3, f_type = 10, f_type_name = [], f_label = 1,
          f_options = \<lparr>packed = False\<rparr>\<rparr>] [] [] \<lparr>map_entry = True\<rparr>))
   \<and> extract_map_shortcut (DescriptorProto ''CountsEntry''
       [\<lparr>f_name = ''key'', f_number = 1, f_type = 9, f_type_name = [], f_label = 1,
          f_options = \<lparr>packed = False\<rparr>\<rparr>,
        \<lparr>f_name = ''value'', f_number = 2, f_type = 5, f_type_name = [], f_label = 1,
          f_options = \<lparr>packed = False\<rparr>\<rparr>,
        \<lparr>f_name = ''extra'', f_number = 3, f_type = 10, f_type_name = [], f_label = 1,
          f_options = \<lparr>packed = False\<rparr>\<rparr>] [] [] \<lparr>map_entry = True\<rparr>)
     = Inr ''map<string,int32>''"
  using map_shortcut_first_two [of "DescriptorProto ''CountsEntry''
       [\<lparr>f_name = ''key'', f_number = 1, f_type = 9, f_type_name = [], f_label = 1,
          f_options = \<lparr>packed = False\<rparr>\<rparr>,
        \<lparr>f_name = ''value'', f_number = 2, f_type = 5, f_type_name = [], f_label = 1,
          f_options = \<lparr>packed = False\<rparr>\<rparr>,
        \<lparr>f_name = ''extra'', f_number = 3, f_type = 10, f_type_name = [], f_label = 1,
          f_options = \<lparr>packed = False\<rparr>\<rparr>] [] [] \<lparr>map_entry = True\<rparr>"]
  by (simp add: extract_field_type_str_def TYPE_LABELS_def type_codes)

subsection \<open>Imports\<close>

lemma startswith_iff: "startswith s p \<longleftrightarrow> (\<exists>rest. s = p @ rest)"
proof
  assume "startswith s p"
  then have "s = p @ drop (length p) s"
    by (metis append_take_drop_id startswith_def)
  then show "\<exists>rest. s = p @ rest" ..
next
  assume "\<exists>rest. s = p @ rest"
  then show "startswith s p"
    by (auto simp: startswith_def)
qed

lemma parent_funpow: "(parent ^^ k) p = take (length p - k) p"
proof (induction k)
  case 0
  then show ?case by simp
next
  case (Suc k)
  then show ?case
    by (simp add: parent_def butlast_take)
qed

text \<open>
  The loop stops after the least number \<open>k\<close> of steps for which the \<open>k\<close>-th parent
  of the start directory is above the target, having added \<open>k\<close> segments.
\<close>

lemma walk_up_least:
  "\<exists>k. walk_up target_file up current = (up @ concat (replicate k ''../''), (parent ^^ k) current)
     \<and> is_relative_to target_file ((parent ^^ k) current)
     \<and> (\<forall>j<k. \<not> is_relative_to target_file ((parent ^^ j) current))"
proof (induction target_file up current rule: walk_up.induct)
  case (1 target_file up current)
  show ?case
  proof (cases "is_relative_to target_file current")
    case True
    then have "walk_up target_file up current = (up @ concat (replicate 0 ''../''), (parent ^^ 0) current)
      \<and> is_relative_to target_file ((parent ^^ 0) current)
      \<and> (\<forall>j<0. \<not> is_relative_to target_file ((parent ^^ j) current))"
      by (simp add: walk_up.simps)
    then show ?thesis by blast
  next
    case False
    from "1.IH" [OF False] obtain k where
      w: "walk_up target_file (up @ ''../'') (parent current)
            = ((up @ ''../'') @ concat (replicate k ''../''), (parent ^^ k) (parent current))"
      and r: "is_relative_to target_file ((parent ^^ k) (parent current))"
      and l: "\<forall>j<k. \<not> is_relative_to target_file ((parent ^^ j) (parent current))"
      by blast
    have "walk_up target_file up current
        = (up @ concat (replicate (Suc k) ''../''), (parent ^^ Suc k) current)"
      using False w by (simp add: walk_up.simps [of target_file up current] funpow_swap1)
    moreover have "is_relative_to target_file ((parent ^^ Suc k) current)"
      using r by (simp add: funpow_swap1)
    moreover have "\<forall>j<Suc k. \<not> is_relative_to target_file ((parent ^^ j) current)"
    proof (intro allI impI)
      fix j assume j: "j < Suc k"
      show "\<not> is_relative_to target_file ((parent ^^ j) current)"
      proof (cases j)
        case 0
        with False show ?thesis by simp
      next
        case (Suc i)
        with j l have "\<not> is_relative_to target_file ((parent ^^ i) (parent current))" by simp
        with Suc show ?thesis by (simp add: funpow_swap1)
      qed
    qed
    ultimately show ?thesis by blast
  qed
qed

lemma generate_import_skip:
  "startswith dep ''google'' \<Longrightarrow> generate_import proto dep current_dir = (proto, None)"
  by (simp add: generate_import_def)

lemma generate_import_path:
  assumes "\<not> startswith dep ''google''"
  shows "\<exists>k. generate_import proto dep current_dir =
         (proto @ ''import \"'' @ concat (replicate k ''../'')
            @ path_str (drop (length ((parent ^^ k) current_dir)) (Path (''protobuf/'' @ dep)))
            @ ''\";\<newline>'', None)
       \<and> is_relative_to (Path (''protobuf/'' @ dep)) ((parent ^^ k) current_dir)
       \<and> (\<forall>j<k. \<not> is_relative_to (Path (''protobuf/'' @ dep)) ((parent ^^ j) current_dir))"
proof -
  obtain k where
    w: "walk_up (Path (''protobuf/'' @ dep)) [] current_dir
          = ([] @ concat (replicate k ''../''), (parent ^^ k) current_dir)"
    and r: "is_relative_to (Path (''protobuf/'' @ dep)) ((parent ^^ k) current_dir)"
    and l: "\<forall>j<k. \<not> is_relative_to (Path (''protobuf/'' @ dep)) ((parent ^^ j) current_dir)"
    using walk_up_least [of "Path (''protobuf/'' @ dep)" "[]" current_dir] by blast
  have "generate_import proto dep current_dir =
         (proto @ ''import \"'' @ concat (replicate k ''../'')
            @ path_str (drop (length ((parent ^^ k) current_dir)) (Path (''protobuf/'' @ dep)))
            @ ''\";\<newline>'', None)"
    using assms w r by (simp add: generate_import_def relative_to_def)
  with r l show ?thesis by blast
qed

text \<open>
  Claim C9. Whether a dependency is skipped is decided by \<^verbatim>\<open>startswith("google")\<close>
  on its whole name, that is by the name being \<^verbatim>\<open>google\<close> followed by anything:
  such a dependency writes nothing, and every other dependency writes one import line
  (the path computation cannot fail).
\<close>

theorem import_skip_is_prefix_test:
  "(startswith dep ''google'' \<longleftrightarrow> (\<exists>rest. dep = ''google'' @ rest))
   \<and> (startswith dep ''google'' \<longrightarrow> generate_import proto dep current_dir = (proto, None))
   \<and> (\<not> startswith dep ''google'' \<longrightarrow>
        (\<exists>p. generate_import proto dep current_dir = (proto @ ''import \"'' @ p @ ''\";\<newline>'', None)))"
proof (intro conjI impI)
  show "startswith dep ''google'' \<longleftrightarrow> (\<exists>rest. dep = ''google'' @ rest)"
    by (rule startswith_iff)
next
  assume "startswith dep ''google''"
  then show "generate_import proto dep current_dir = (proto, None)"
    by (rule generate_import_skip)
next
  assume "\<not> startswith dep ''google''"
  from generate_import_path [OF this, of proto current_dir] obtain k where
    "generate_import proto dep current_dir =
       (proto @ ''import \"'' @ concat (replicate k ''../'')
          @ path_str (drop (length ((parent ^^ k) current_dir)) (Path (''protobuf/'' @ dep)))
          @ ''\";\<newline>'', None)"
    by blast
  then have "generate_import proto dep current_dir =
       (proto @ ''import \"''
          @ (concat (replicate k ''../'')
              @ path_str (drop (length ((parent ^^ k) current_dir)) (Path (''protobuf/'' @ dep))))
          @ ''\";\<newline>'', None)"
    by (simp only: append_assoc)
  then show "\<exists>p. generate_import proto dep current_dir = (proto @ ''import \"'' @ p @ ''\";\<newline>'', None)"
    by blast
qed


text \<open>Skipped: \<^verbatim>\<open>googleapis/x.proto\<close>. Imported: \<^verbatim>\<open>c/y.proto\<close>.\<close>

theorem import_skip_is_prefix_test_witness:
  "startswith ''googleapis/x.proto'' ''google''
   \<and> generate_import ''syntax'' ''googleapis/x.proto'' [''protobuf'', ''a'', ''b''] = (''syntax'', None)
   \<and> \<not> startswith ''c/y.proto'' ''google''
   \<and> (\<exists>p. generate_import ''syntax'' ''c/y.proto'' [''protobuf'', ''a'', ''b'']
          = (''syntax'' @ ''import \"'' @ p @ ''\";\<newline>'', None))"
proof -
  have g: "startswith ''googleapis/x.proto'' ''google''"
    and n: "\<not> startswith ''c/y.proto'' ''google''"
    by (simp_all add: startswith_def)
  show ?thesis
    using g n
      import_skip_is_prefix_test [of "''googleapis/x.proto''" "''syntax''" "[''protobuf'', ''a'', ''b'']"]
      import_skip_is_prefix_test [of "''c/y.proto''" "''syntax''" "[''protobuf'', ''a'', ''b'']"]
    by blast
qed

text \<open>
  Claim C6. For a dependency that is not skipped, the import path is \<open>k\<close> segments
  \<^verbatim>\<open>../\<close> followed by the target path relative to the \<open>k\<close>-th parent of the
  importing file's directory, where \<open>k\<close> is the number of upward steps the walk
  takes: the \<open>k\<close>-th parent is the first directory on the way up that has the
  dependency's path under the output root below it.
\<close>

theorem import_relative_path:
  assumes "\<not> startswith dep ''google''"
  shows "\<exists>k. generate_import proto dep current_dir =
         (proto @ ''import \"'' @ concat (replicate k ''../'')
            @ path_str (drop (length ((parent ^^ k) current_dir)) (Path (''protobuf/'' @ dep)))
            @ ''\";\<newline>'', None)
       \<and> is_relative_to (Path (''protobuf/'' @ dep)) ((parent ^^ k) current_dir)
       \<and> (\<forall>j<k. \<not> is_relative_to (Path (''protobuf/'' @ dep)) ((parent ^^ j) current_dir))"
  using assms by (rule generate_import_path)

text \<open>
  The file \<^verbatim>\<open>protobuf/a/b/x.proto\<close> importing \<^verbatim>\<open>c/y.proto\<close>: two steps up, so
  the line is \<^verbatim>\<open>import "../../c/y.proto";\<close>.
\<close>

theorem import_relative_path_witness:
  "\<not> startswith ''c/y.proto'' ''google''
   \<and> generate_import [] ''c/y.proto'' (parent (Path (''protobuf/'' @ ''a/b/x.proto'')))
       = (''import \"../../c/y.proto\";\<newline>'', None)"
proof -
  have n: "\<not> startswith ''c/y.proto'' ''google''"
    by (simp add: startswith_def)
  have cur: "parent (Path (''protobuf/'' @ ''a/b/x.proto'')) = [''protobuf'', ''a'', ''b'']"
    by (simp add: Path_def parent_def)
  have tgt: "Path (''protobuf/'' @ ''c/y.proto'') = [''protobuf'', ''c'', ''y.proto'']"
    by (simp add: Path_def)
  from import_relative_path [OF n, of "[]" "[''protobuf'', ''a'', ''b'']"] obtain k where
    g: "generate_import [] ''c/y.proto'' [''protobuf'', ''a'', ''b''] =
         ([] @ ''import \"'' @ concat (replicate k ''../'')
            @ path_str (drop (length ((parent ^^ k) [''protobuf'', ''a'', ''b'']))
                 [''protobuf'', ''c'', ''y.proto''])
            @ ''\";\<newline>'', None)"
    and r: "is_relative_to [''protobuf'', ''c'', ''y.proto''] ((parent ^^ k) [''protobuf'', ''a'', ''b''])"
    and l: "\<forall>j<k. \<not> is_relative_to [''protobuf'', ''c'', ''y.proto'']
              ((parent ^^ j) [''protobuf'', ''a'', ''b''])"
    unfolding tgt by blast
  have r2: "is_relative_to [''protobuf'', ''c'', ''y.proto''] ((parent ^^ 2) [''protobuf'', ''a'', ''b''])"
    by (simp add: is_relative_to_def parent_def numeral_2_eq_2)
  have "k \<noteq> 0"
  proof
    assume "k = 0"
    with r show False by (simp add: is_relative_to_def)
  qed
  moreover have "k \<noteq> 1"
  proof
    assume "k = 1"
    with r show False by (simp add: is_relative_to_def parent_def)
  qed
  moreover have "\<not> 2 < k"
    using l r2 by blast
  ultimately have "k = 2" by arith
  with g have "generate_import [] ''c/y.proto'' [''protobuf'', ''a'', ''b'']
      = (''import \"../../c/y.proto\";\<newline>'', None)"
    by (simp add: parent_def numeral_2_eq_2 path_str_def)
  with n cur show ?thesis by simp
qed

subsection \<open>Writers only append\<close>
















subsection \<open>Errors do not depend on the text written before\<close>








subsection \<open>An error stops everything that encloses it\<close>







subsection \<open>Files on disk\<close>















text \<open>
  A regular file named \<^verbatim>\<open>protobuf\<close> in the way: the directory exists as far as
  \<^verbatim>\<open>exists()\<close> can tell, \<^verbatim>\<open>open\<close> raises, and nothing is written.
\<close>

lemma file_in_the_way:
  "generate_file_pb group_file \<lparr>files = [[''protobuf''] \<mapsto> ''text''], dirs = {}, emitted = []\<rparr>
     = (\<lparr>files = [[''protobuf''] \<mapsto> ''text''], dirs = {}, emitted = []\<rparr>, Some OSError)"
proof -
  have "Path (''protobuf/'' @ fd_name group_file) = [''protobuf'', ''x.proto'']"
    by (simp add: Path_def group_file_def)
  then show ?thesis
    by (simp add: generate_file_pb_def Let_def path_exists_def open_write_def parent_def)
qed

subsection \<open>Group fields\<close>














subsection \<open>Map entries\<close>







subsection \<open>Descriptor graphs\<close>


lemma nodes_unfold: "nodes d = insert d (\<Union>b \<in> set (d_dependencies d). nodes b)"
  by (cases d) simp



lemma nodes_dependency: "b \<in> set (d_dependencies d) \<Longrightarrow> nodes b \<subseteq> nodes d"
  by (subst (2) nodes_unfold) auto











end
